theory Spec2Isabelle
  imports Complex_Main "HOL-Library.Finite_Map" "HOL-Library.Sublist"
begin

section \<open>Python values\<close>

text \<open>
  The adapters exchange JSON documents with a provider. A decoded document is a Python
  value: \<open>None\<close>, a bool, an int, a float, a str, a list or a dict with string keys.
  A dict is a finite map; key order plays no role in any property below.
\<close>

datatype pyfloat = Finite rat | PosInf | NegInf | NaN

datatype json =
    JNull
  | JBool bool
  | JInt int
  | JFloat pyfloat
  | JStr string
  | JArr "json list"
  | JObj "(string, json) fmap"

text \<open>The exceptions that the modelled code can raise or let through.\<close>

datatype error =
    KeyError
  | IndexError
  | TypeError
  | AttributeError
  | JSONDecodeError
  | RequestException
  | HTTPError
  | ValidationError
  | ValueError

text \<open>Truth value testing, as \<^verbatim>\<open>if x:\<close> performs it.\<close>

fun truthy :: "json \<Rightarrow> bool" where
  "truthy JNull = False"
| "truthy (JBool b) = b"
| "truthy (JInt i) = (i \<noteq> 0)"
| "truthy (JFloat f) = (f \<noteq> Finite 0)"
| "truthy (JStr s) = (s \<noteq> [])"
| "truthy (JArr xs) = (xs \<noteq> [])"
| "truthy (JObj m) = (m \<noteq> fmempty)"

text \<open>
  Subscription \<^verbatim>\<open>x[k]\<close> with a string key: a dict looks the key up and raises
  \<^verbatim>\<open>KeyError\<close> when it is absent; a list or a str accepts integer indices only; every
  other value is not subscriptable.
\<close>

fun getitem_str :: "json \<Rightarrow> string \<Rightarrow> error + json" where
  "getitem_str (JObj m) k = (case fmlookup m k of None \<Rightarrow> Inl KeyError | Some v \<Rightarrow> Inr v)"
| "getitem_str JNull k = Inl TypeError"
| "getitem_str (JBool b) k = Inl TypeError"
| "getitem_str (JInt i) k = Inl TypeError"
| "getitem_str (JFloat f) k = Inl TypeError"
| "getitem_str (JStr s) k = Inl TypeError"
| "getitem_str (JArr xs) k = Inl TypeError"

text \<open>
  Subscription with an integer index. A negative index counts from the end; an index
  out of range raises \<^verbatim>\<open>IndexError\<close>. The keys of a decoded JSON object are strings,
  so an integer key is never present in a dict.
\<close>

definition index_list :: "'a list \<Rightarrow> int \<Rightarrow> 'a option" where
  "index_list xs i =
     (if 0 \<le> i \<and> i < int (length xs) then Some (xs ! nat i)
      else if i < 0 \<and> - int (length xs) \<le> i then Some (xs ! nat (int (length xs) + i))
      else None)"

fun getitem_int :: "json \<Rightarrow> int \<Rightarrow> error + json" where
  "getitem_int (JArr xs) i = (case index_list xs i of None \<Rightarrow> Inl IndexError | Some v \<Rightarrow> Inr v)"
| "getitem_int (JStr s) i = (case index_list s i of None \<Rightarrow> Inl IndexError | Some c \<Rightarrow> Inr (JStr [c]))"
| "getitem_int (JObj m) i = Inl KeyError"
| "getitem_int JNull i = Inl TypeError"
| "getitem_int (JBool b) i = Inl TypeError"
| "getitem_int (JInt n) i = Inl TypeError"
| "getitem_int (JFloat f) i = Inl TypeError"

text \<open>\<^verbatim>\<open>x.get(k, default)\<close>: only a dict has the method.\<close>

fun py_get :: "json \<Rightarrow> string \<Rightarrow> json \<Rightarrow> error + json" where
  "py_get (JObj m) k d = Inr (case fmlookup m k of None \<Rightarrow> d | Some v \<Rightarrow> v)"
| "py_get JNull k d = Inl AttributeError"
| "py_get (JBool b) k d = Inl AttributeError"
| "py_get (JInt i) k d = Inl AttributeError"
| "py_get (JFloat f) k d = Inl AttributeError"
| "py_get (JStr s) k d = Inl AttributeError"
| "py_get (JArr xs) k d = Inl AttributeError"

text \<open>
  \<^verbatim>\<open>s.replace(old, new)\<close>: every non-overlapping occurrence of \<open>old\<close>, found from the
  left, is replaced. With an empty \<open>old\<close>, \<open>new\<close> is inserted before every character and
  at the end.
\<close>

function str_replace :: "string \<Rightarrow> string \<Rightarrow> string \<Rightarrow> string" where
  "str_replace old new [] = (if old = [] then new else [])"
| "str_replace old new (c # cs) =
     (if old = [] then new @ c # str_replace old new cs
      else if prefix old (c # cs) then new @ str_replace old new (drop (length old) (c # cs))
      else c # str_replace old new cs)"
  by pat_completeness auto
termination
  by (relation "measure (\<lambda>(old, new, s). length s)") auto

section \<open>Messages and conversations\<close>

text \<open>
  Modelled from the spec: the message classes (MessageBase, AgentMessage) and UsageData
  are not among the sources. A message carries a role, an optional name, a content that
  is either plain text or an ordered sequence of content blocks (each block a dict), and
  an optional usage record of three token counts.
\<close>

datatype msg_content = Text string | Blocks "(string, json) fmap list"

record usage_data =
  prompt_tokens :: int
  completion_tokens :: int
  total_tokens :: int

record message =
  role :: string
  name :: "string option"
  content :: msg_content
  usage :: "usage_data option"

text \<open>
  A Conversation is an object passed by reference and mutated in place: a conversation
  is an address, and the store maps each address to the history held there. The store
  is one component of the world; the other is the log of HTTP requests issued so far.
\<close>

type_synonym conversation = nat

record request =
  url :: string
  headers :: "(string \<times> string) list"
  body :: json
  streamed :: bool

record world =
  heap :: "conversation \<Rightarrow> message list"
  sent :: "request list"

definition history :: "conversation \<Rightarrow> world \<Rightarrow> message list" where
  "history conversation w = heap w conversation"

text \<open>
  Modelled from the spec: Conversation.add_message is not among the sources; the spec
  gives it as the append of one message to the ordered history.
\<close>

definition add_message :: "conversation \<Rightarrow> message \<Rightarrow> world \<Rightarrow> world" where
  "add_message conversation m w =
     w\<lparr>heap := (heap w)(conversation := heap w conversation @ [m])\<rparr>"

text \<open>
  Modelled from the spec: the constructor AgentMessage(content, usage) is not among the
  sources. It builds an assistant message without a name; by the spec's data model the
  content is plain text or a sequence of blocks, and anything else is rejected by
  validation.
\<close>

fun blocks_of :: "json list \<Rightarrow> (string, json) fmap list option" where
  "blocks_of [] = Some []"
| "blocks_of (JObj m # js) = (case blocks_of js of None \<Rightarrow> None | Some bs \<Rightarrow> Some (m # bs))"
| "blocks_of (j # js) = None"

fun AgentMessage :: "json \<Rightarrow> usage_data option \<Rightarrow> error + message" where
  "AgentMessage (JStr s) u =
     Inr \<lparr>role = ''assistant'', name = None, content = Text s, usage = u\<rparr>"
| "AgentMessage (JArr js) u =
     (case blocks_of js of
        None \<Rightarrow> Inl ValidationError
      | Some bs \<Rightarrow> Inr \<lparr>role = ''assistant'', name = None, content = Blocks bs, usage = u\<rparr>)"
| "AgentMessage j u = Inl ValidationError"

section \<open>The environment\<close>

text \<open>
  What the adapters call but do not define is a parameter: the JSON decoder
  (\<open>None\<close> when \<^verbatim>\<open>json.loads\<close> raises \<^verbatim>\<open>JSONDecodeError\<close>), the two HTTP clients and
  the usage validator. An HTTP client answers a request, given the requests issued
  before it, either by failing to connect or with a response. A response knows whether
  \<^verbatim>\<open>raise_for_status\<close> passes, what \<^verbatim>\<open>response.json()\<close> returns (\<open>None\<close> when the body
  is not JSON) and the lines that iterating over it yields.
\<close>

record response =
  resp_ok :: bool
  resp_json :: "json option"
  resp_lines :: "string list"

datatype reply = ConnectionFailed | Got response

record env =
  json_loads :: "string \<Rightarrow> json option"
  requests_post :: "request list \<Rightarrow> request \<Rightarrow> reply"
  httpx_post :: "request list \<Rightarrow> request \<Rightarrow> reply"
  UsageData_model_validate :: "json \<Rightarrow> error + usage_data"

section \<open>GroqVisionModel\<close>

record GroqVisionModel =
  api_key :: string
  allowed_models :: "string list"
  model_name :: string

definition api_url :: string where
  "api_url = ''https://api.groq.com/openai/v1/chat/completions''"

record params =
  temperature :: pyfloat
  max_tokens :: int
  top_p :: pyfloat
  enable_json :: bool
  stop :: "string list option"

subsection \<open>Formatting messages\<close>

text \<open>
  \<^verbatim>\<open>message.model_dump(include=["content", "role", "name"], exclude_none=True)\<close>:
  the three fields as a dict, a field whose value is \<open>None\<close> left out.
\<close>

fun dump_content :: "msg_content \<Rightarrow> json" where
  "dump_content (Text s) = JStr s"
| "dump_content (Blocks bs) = JArr (map JObj bs)"

definition model_dump :: "message \<Rightarrow> (string, json) fmap" where
  "model_dump m =
     fmap_of_list
       ([(''content'', dump_content (content m)), (''role'', JStr (role m))] @
        (case name m of None \<Rightarrow> [] | Some n \<Rightarrow> [(''name'', JStr n)]))"

text \<open>
  \<^verbatim>\<open>{"type": item["type"], **item}\<close>: the lookup of the type raises when the block has
  none; the new dict starts from the type and takes every entry of the item.
\<close>

fun format_item :: "json \<Rightarrow> error + json" where
  "format_item item =
     (case getitem_str item ''type'' of
        Inl e \<Rightarrow> Inl e
      | Inr t \<Rightarrow>
          (case item of
             JObj m \<Rightarrow> Inr (JObj (fmap_of_list [(''type'', t)] ++\<^sub>f m))
           | _ \<Rightarrow> Inl TypeError))"

fun format_items :: "json list \<Rightarrow> error + json list" where
  "format_items [] = Inr []"
| "format_items (item # items) =
     (case format_item item of
        Inl e \<Rightarrow> Inl e
      | Inr x \<Rightarrow> (case format_items items of Inl e \<Rightarrow> Inl e | Inr xs \<Rightarrow> Inr (x # xs)))"

definition format_message :: "message \<Rightarrow> error + json" where
  "format_message m =
     (let formatted_message = model_dump m in
      case fmlookup formatted_message ''content'' of
        None \<Rightarrow> Inl KeyError
      | Some (JArr items) \<Rightarrow>
          (case format_items items of
             Inl e \<Rightarrow> Inl e
           | Inr items' \<Rightarrow> Inr (JObj (fmupd ''content'' (JArr items') formatted_message)))
      | Some c \<Rightarrow> Inr (JObj formatted_message))"

fun format_messages :: "message list \<Rightarrow> error + json list" where
  "format_messages [] = Inr []"
| "format_messages (m # messages) =
     (case format_message m of
        Inl e \<Rightarrow> Inl e
      | Inr x \<Rightarrow> (case format_messages messages of Inl e \<Rightarrow> Inl e | Inr xs \<Rightarrow> Inr (x # xs)))"

subsection \<open>Requests\<close>

definition stop_or_empty :: "string list option \<Rightarrow> string list" where
  "stop_or_empty s = (case s of None \<Rightarrow> [] | Some xs \<Rightarrow> xs)"

definition request_data :: "GroqVisionModel \<Rightarrow> params \<Rightarrow> json list \<Rightarrow> bool \<Rightarrow> (string, json) fmap" where
  "request_data M p formatted_messages streaming =
     (let data = fmap_of_list
            ([(''model'', JStr (model_name M)),
              (''messages'', JArr formatted_messages),
              (''temperature'', JFloat (temperature p)),
              (''max_tokens'', JInt (max_tokens p)),
              (''top_p'', JFloat (top_p p))] @
             (if streaming then [(''stream'', JBool True)] else []) @
             [(''stop'', JArr (map JStr (stop_or_empty (stop p))))])
      in if enable_json p then fmupd ''response_format'' (JStr ''json_object'') data else data)"

definition request_headers :: "GroqVisionModel \<Rightarrow> (string \<times> string) list" where
  "request_headers M =
     [(''Content-Type'', ''application/json''), (''Authorization'', ''Bearer '' @ api_key M)]"

text \<open>
  The request that a call posts: the URL of the API, the two headers and the payload;
  \<open>streaming\<close> tells whether the client is asked to stream the response.
\<close>

definition api_request :: "GroqVisionModel \<Rightarrow> (string, json) fmap \<Rightarrow> bool \<Rightarrow> request" where
  "api_request M data streaming =
     \<lparr>url = api_url, headers = request_headers M, body = JObj data, streamed = streaming\<rparr>"

definition make_request :: "env \<Rightarrow> GroqVisionModel \<Rightarrow> (string, json) fmap \<Rightarrow> world \<Rightarrow> (error + json) \<times> world" where
  "make_request E M data w =
     (let req = api_request M data False;
          w' = w\<lparr>sent := sent w @ [req]\<rparr>
      in case requests_post E (sent w) req of
           ConnectionFailed \<Rightarrow> (Inl RequestException, w')
         | Got resp \<Rightarrow>
             if \<not> resp_ok resp then (Inl HTTPError, w')
             else (case resp_json resp of
                     None \<Rightarrow> (Inl JSONDecodeError, w')
                   | Some j \<Rightarrow> (Inr j, w')))"

subsection \<open>predict and apredict\<close>

definition prepare_usage_data :: "env \<Rightarrow> json \<Rightarrow> error + usage_data" where
  "prepare_usage_data E usage_data = UsageData_model_validate E usage_data"

text \<open>\<^verbatim>\<open>result["choices"][0]["message"]["content"]\<close>\<close>

definition completion_content :: "json \<Rightarrow> error + json" where
  "completion_content result =
     (case getitem_str result ''choices'' of
        Inl e \<Rightarrow> Inl e
      | Inr choices \<Rightarrow>
          (case getitem_int choices 0 of
             Inl e \<Rightarrow> Inl e
           | Inr choice \<Rightarrow>
               (case getitem_str choice ''message'' of
                  Inl e \<Rightarrow> Inl e
                | Inr msg \<Rightarrow> getitem_str msg ''content'')))"

text \<open>
  Everything in \<^verbatim>\<open>predict\<close> after the request has returned: the content is extracted,
  the usage validated, the message built, and only then is the conversation touched.
\<close>

definition finish_predict :: "env \<Rightarrow> conversation \<Rightarrow> json \<Rightarrow> world \<Rightarrow> (error + conversation) \<times> world" where
  "finish_predict E conversation result w =
     (case completion_content result of
        Inl e \<Rightarrow> (Inl e, w)
      | Inr message_content \<Rightarrow>
          (case py_get result ''usage'' (JObj fmempty) of
             Inl e \<Rightarrow> (Inl e, w)
           | Inr usage_data \<Rightarrow>
               (case prepare_usage_data E usage_data of
                  Inl e \<Rightarrow> (Inl e, w)
                | Inr validated \<Rightarrow>
                    (case AgentMessage message_content (Some validated) of
                       Inl e \<Rightarrow> (Inl e, w)
                     | Inr m \<Rightarrow> (Inr conversation, add_message conversation m w)))))"

definition predict :: "env \<Rightarrow> GroqVisionModel \<Rightarrow> conversation \<Rightarrow> params \<Rightarrow> world \<Rightarrow> (error + conversation) \<times> world" where
  "predict E M conversation p w =
     (case format_messages (history conversation w) of
        Inl e \<Rightarrow> (Inl e, w)
      | Inr formatted_messages \<Rightarrow>
          (case make_request E M (request_data M p formatted_messages False) w of
             (Inl e, w') \<Rightarrow> (Inl e, w')
           | (Inr result, w') \<Rightarrow> finish_predict E conversation result w'))"

text \<open>
  \<^verbatim>\<open>apredict\<close> runs the same statements; the request is made on a worker thread and
  awaited, so the coroutine is suspended once, between sending the request and
  reading its result.
\<close>

definition apredict :: "env \<Rightarrow> GroqVisionModel \<Rightarrow> conversation \<Rightarrow> params \<Rightarrow> world \<Rightarrow> (error + conversation) \<times> world" where
  "apredict E M conversation p w =
     (case format_messages (history conversation w) of
        Inl e \<Rightarrow> (Inl e, w)
      | Inr formatted_messages \<Rightarrow>
          (case make_request E M (request_data M p formatted_messages False) w of
             (Inl e, w') \<Rightarrow> (Inl e, w')
           | (Inr result, w') \<Rightarrow> finish_predict E conversation result w'))"

subsection \<open>stream and astream\<close>

text \<open>
  Both are generators: the body runs only while the consumer asks for the next element,
  and is suspended at each \<^verbatim>\<open>yield\<close>. A generator is either not started, suspended
  at the \<^verbatim>\<open>yield\<close> inside the loop (with the lines not yet read and the text accumulated
  so far), or closed. One call of \<^verbatim>\<open>next\<close> runs the body to the next \<^verbatim>\<open>yield\<close>, to
  its end, or to an exception that leaves it.
\<close>

datatype gen_state = Created | Suspended "string list" string | Closed

datatype step = Yielded string | StopIteration | Raised error

text \<open>\<^verbatim>\<open>chunk["choices"][0]["delta"]\<close>\<close>

definition chunk_delta :: "json \<Rightarrow> error + json" where
  "chunk_delta chunk =
     (case getitem_str chunk ''choices'' of
        Inl e \<Rightarrow> Inl e
      | Inr choices \<Rightarrow>
          (case getitem_int choices 0 of
             Inl e \<Rightarrow> Inl e
           | Inr choice \<Rightarrow> getitem_str choice ''delta''))"

text \<open>
  The body of the loop for one line. The handler catches \<^verbatim>\<open>JSONDecodeError\<close> only,
  which only \<^verbatim>\<open>json.loads\<close> raises; every other exception leaves the generator. The
  delta is looked up twice in the source, with the same result.
  \<^verbatim>\<open>message_content += delta\<close> raises \<^verbatim>\<open>TypeError\<close> unless the delta is a str. The
  result is the exception that leaves the body, or the fragment that the body yields,
  or nothing when the line is passed over.
\<close>

definition process_line :: "env \<Rightarrow> string \<Rightarrow> error + string option" where
  "process_line E line =
     (let json_str = str_replace ''data: '' [] line in
      if json_str = [] then Inr None
      else
        (case json_loads E json_str of
           None \<Rightarrow> Inr None
         | Some chunk \<Rightarrow>
             (case chunk_delta chunk of
                Inl e \<Rightarrow> Inl e
              | Inr d \<Rightarrow>
                  if truthy d then
                    (case getitem_str d ''content'' of
                       Inl e \<Rightarrow> Inl e
                     | Inr (JStr delta) \<Rightarrow> Inr (Some delta)
                     | Inr other \<Rightarrow> Inl TypeError)
                  else Inr None)))"

text \<open>
  The loop over the lines and the statement after it, from a given position: a
  fragment suspends the generator with the fragment added to the accumulated text;
  when the lines are exhausted the accumulated text is appended to the conversation as
  one assistant message.
\<close>

fun reassemble :: "env \<Rightarrow> conversation \<Rightarrow> string list \<Rightarrow> string \<Rightarrow> world \<Rightarrow> step \<times> gen_state \<times> world" where
  "reassemble E conversation [] message_content w =
     (case AgentMessage (JStr message_content) None of
        Inl e \<Rightarrow> (Raised e, Closed, w)
      | Inr m \<Rightarrow> (StopIteration, Closed, add_message conversation m w))"
| "reassemble E conversation (line # lines) message_content w =
     (case process_line E line of
        Inl e \<Rightarrow> (Raised e, Closed, w)
      | Inr None \<Rightarrow> reassemble E conversation lines message_content w
      | Inr (Some delta) \<Rightarrow> (Yielded delta, Suspended lines (message_content @ delta), w))"

definition stream_next :: "env \<Rightarrow> GroqVisionModel \<Rightarrow> conversation \<Rightarrow> params \<Rightarrow> gen_state \<Rightarrow> world \<Rightarrow> step \<times> gen_state \<times> world" where
  "stream_next E M conversation p g w =
     (case g of
        Created \<Rightarrow>
          (case format_messages (history conversation w) of
             Inl e \<Rightarrow> (Raised e, Closed, w)
           | Inr formatted_messages \<Rightarrow>
               (let req = api_request M (request_data M p formatted_messages True) True;
                    w' = w\<lparr>sent := sent w @ [req]\<rparr>
                in case requests_post E (sent w) req of
                     ConnectionFailed \<Rightarrow> (Raised RequestException, Closed, w')
                   | Got resp \<Rightarrow>
                       if \<not> resp_ok resp then (Raised HTTPError, Closed, w')
                       else reassemble E conversation (resp_lines resp) [] w'))
      | Suspended lines message_content \<Rightarrow> reassemble E conversation lines message_content w
      | Closed \<Rightarrow> (StopIteration, Closed, w))"

text \<open>
  \<^verbatim>\<open>astream\<close> posts through the asynchronous client, without asking the client to
  stream, and then runs the same loop.
\<close>

definition astream_next :: "env \<Rightarrow> GroqVisionModel \<Rightarrow> conversation \<Rightarrow> params \<Rightarrow> gen_state \<Rightarrow> world \<Rightarrow> step \<times> gen_state \<times> world" where
  "astream_next E M conversation p g w =
     (case g of
        Created \<Rightarrow>
          (case format_messages (history conversation w) of
             Inl e \<Rightarrow> (Raised e, Closed, w)
           | Inr formatted_messages \<Rightarrow>
               (let req = api_request M (request_data M p formatted_messages True) False;
                    w' = w\<lparr>sent := sent w @ [req]\<rparr>
                in case httpx_post E (sent w) req of
                     ConnectionFailed \<Rightarrow> (Raised RequestException, Closed, w')
                   | Got resp \<Rightarrow>
                       if \<not> resp_ok resp then (Raised HTTPError, Closed, w')
                       else reassemble E conversation (resp_lines resp) [] w'))
      | Suspended lines message_content \<Rightarrow> reassemble E conversation lines message_content w
      | Closed \<Rightarrow> (StopIteration, Closed, w))"

text \<open>
  A consumer that stops iterating closes the generator (explicitly, or when the
  generator object is reclaimed): \<^verbatim>\<open>GeneratorExit\<close> is raised at the \<^verbatim>\<open>yield\<close> where the
  body is suspended, no handler of the body catches it, and no statement after the loop
  runs. A generator that was never started is closed without running at all.
\<close>

definition close :: "gen_state \<Rightarrow> world \<Rightarrow> gen_state \<times> world" where
  "close g w = (Closed, w)"

text \<open>
  The consumer: \<open>pull nxt n\<close> asks for the next element up to \<open>n\<close> times, stopping
  earlier when the generator ends or raises. It returns the fragments received, how the
  iteration stands (still open, exhausted, or failed), the generator and the world.
\<close>

datatype ending = Open | Exhausted | Failed error

primrec pull :: "(gen_state \<Rightarrow> world \<Rightarrow> step \<times> gen_state \<times> world) \<Rightarrow> nat \<Rightarrow> gen_state \<Rightarrow> world \<Rightarrow> string list \<times> ending \<times> gen_state \<times> world" where
  "pull nxt 0 g w = ([], Open, g, w)"
| "pull nxt (Suc n) g w =
     (case nxt g w of
        (Yielded s, g', w') \<Rightarrow>
          (case pull nxt n g' w' of (fs, e, g'', w'') \<Rightarrow> (s # fs, e, g'', w''))
      | (StopIteration, g', w') \<Rightarrow> ([], Exhausted, g', w')
      | (Raised e, g', w') \<Rightarrow> ([], Failed e, g', w'))"

subsection \<open>batch\<close>

text \<open>
  The conversations are processed one after the other; an exception raised by
  \<^verbatim>\<open>predict\<close> is not caught, so it leaves the loop and the method.
\<close>

fun batch :: "env \<Rightarrow> GroqVisionModel \<Rightarrow> conversation list \<Rightarrow> params \<Rightarrow> world \<Rightarrow> (error + conversation list) \<times> world" where
  "batch E M [] p w = (Inr [], w)"
| "batch E M (conversation # conversations) p w =
     (case predict E M conversation p w of
        (Inl e, w') \<Rightarrow> (Inl e, w')
      | (Inr result_conversation, w') \<Rightarrow>
          (case batch E M conversations p w' of
             (Inl e, w'') \<Rightarrow> (Inl e, w'')
           | (Inr results, w'') \<Rightarrow> (Inr (result_conversation # results), w'')))"

subsection \<open>abatch\<close>

text \<open>
  One task per conversation, all handed to \<^verbatim>\<open>asyncio.gather\<close>. A task first waits for
  a permit of the semaphore; with the permit it runs \<^verbatim>\<open>apredict\<close> up to the point
  where the request is awaited; when the request completes it runs the rest of
  \<^verbatim>\<open>apredict\<close> and gives the permit back, also when an exception leaves it.
\<close>

datatype task = Queued | InFlight "error + json" | Done "error + conversation"

record abatch_state =
  tasks :: "task list"
  permits :: nat
  raised :: "error option"
  now :: world

text \<open>
  The order in which requests complete is not fixed by the program. A run is driven by
  a schedule of events: \<open>Resume\<close> lets the longest-waiting task take a free permit and
  run up to its request; \<open>Complete i\<close> delivers the result of the request of task \<open>i\<close>.
  An event that cannot happen in the current state changes nothing.
\<close>

datatype event = Resume | Complete nat

fun first_queued :: "task list \<Rightarrow> nat option" where
  "first_queued [] = None"
| "first_queued (Queued # ts) = Some 0"
| "first_queued (t # ts) = map_option Suc (first_queued ts)"

text \<open>\<^verbatim>\<open>gather\<close> passes the first exception raised by any task on to its caller.\<close>

definition note_result :: "error + conversation \<Rightarrow> error option \<Rightarrow> error option" where
  "note_result r first =
     (case first of
        Some e \<Rightarrow> Some e
      | None \<Rightarrow> (case r of Inl e \<Rightarrow> Some e | Inr c \<Rightarrow> None))"

definition resume_task :: "env \<Rightarrow> GroqVisionModel \<Rightarrow> conversation list \<Rightarrow> params \<Rightarrow> abatch_state \<Rightarrow> abatch_state" where
  "resume_task E M conversations p st =
     (if permits st = 0 then st
      else
        (case first_queued (tasks st) of
           None \<Rightarrow> st
         | Some i \<Rightarrow>
             (case format_messages (history (conversations ! i) (now st)) of
                Inl e \<Rightarrow>
                  st\<lparr>tasks := (tasks st)[i := Done (Inl e)],
                     raised := note_result (Inl e) (raised st)\<rparr>
              | Inr formatted_messages \<Rightarrow>
                  (case make_request E M (request_data M p formatted_messages False) (now st) of
                     (result, w') \<Rightarrow>
                       st\<lparr>tasks := (tasks st)[i := InFlight result],
                          permits := permits st - 1,
                          now := w'\<rparr>))))"

definition complete_task :: "env \<Rightarrow> conversation list \<Rightarrow> nat \<Rightarrow> abatch_state \<Rightarrow> abatch_state" where
  "complete_task E conversations i st =
     (if i < length (tasks st) then
        (case tasks st ! i of
           InFlight (Inl e) \<Rightarrow>
             st\<lparr>tasks := (tasks st)[i := Done (Inl e)],
                permits := permits st + 1,
                raised := note_result (Inl e) (raised st)\<rparr>
         | InFlight (Inr result) \<Rightarrow>
             (case finish_predict E (conversations ! i) result (now st) of
                (r, w') \<Rightarrow>
                  st\<lparr>tasks := (tasks st)[i := Done r],
                     permits := permits st + 1,
                     raised := note_result r (raised st),
                     now := w'\<rparr>)
         | Queued \<Rightarrow> st
         | Done r \<Rightarrow> st)
      else st)"

fun abatch_event :: "env \<Rightarrow> GroqVisionModel \<Rightarrow> conversation list \<Rightarrow> params \<Rightarrow> abatch_state \<Rightarrow> event \<Rightarrow> abatch_state" where
  "abatch_event E M conversations p st Resume = resume_task E M conversations p st"
| "abatch_event E M conversations p st (Complete i) = complete_task E conversations i st"

text \<open>
  What the caller of \<^verbatim>\<open>abatch\<close> has got after a schedule: the first exception if a
  task has raised one; the results in the order of the tasks if every task has
  returned; nothing yet otherwise.
\<close>

datatype 'a outcome = Pending | Returned 'a | Raises error

fun all_returned :: "task list \<Rightarrow> conversation list option" where
  "all_returned [] = Some []"
| "all_returned (Done (Inr c) # ts) = map_option ((#) c) (all_returned ts)"
| "all_returned (t # ts) = None"

definition gather_result :: "abatch_state \<Rightarrow> conversation list outcome" where
  "gather_result st =
     (case raised st of
        Some e \<Rightarrow> Raises e
      | None \<Rightarrow> (case all_returned (tasks st) of None \<Rightarrow> Pending | Some rs \<Rightarrow> Returned rs))"

text \<open>
  \<^verbatim>\<open>asyncio.Semaphore\<close> rejects a negative initial value with \<^verbatim>\<open>ValueError\<close>.
\<close>

definition abatch :: "env \<Rightarrow> GroqVisionModel \<Rightarrow> conversation list \<Rightarrow> params \<Rightarrow> int \<Rightarrow> event list \<Rightarrow> world \<Rightarrow> conversation list outcome \<times> world" where
  "abatch E M conversations p max_concurrent schedule w =
     (if max_concurrent < 0 then (Raises ValueError, w)
      else
        (let st = foldl (abatch_event E M conversations p)
                    \<lparr>tasks = map (\<lambda>c. Queued) conversations,
                     permits = nat max_concurrent,
                     raised = None,
                     now = w\<rparr>
                    schedule
         in (gather_result st, now st)))"

section \<open>VoyageEmbedding\<close>

record VoyageEmbedding =
  voyage_model :: string
  voyage_headers :: "(string \<times> string) list"

definition voyage_allowed_models :: "string list" where
  "voyage_allowed_models =
     [''voyage-2'', ''voyage-large-2'', ''voyage-code-2'', ''voyage-lite-02-instruct'']"

text \<open>
  The constructor first runs the constructor of the base class on the remaining
  keyword arguments; \<open>super_init\<close> is the exception that call raises, if any. Then the
  model name is checked against the allowed names. The world is passed through to
  record that no statement of the constructor issues a request.
\<close>

definition VoyageEmbedding_init :: "error option \<Rightarrow> string \<Rightarrow> string \<Rightarrow> world \<Rightarrow> (error + VoyageEmbedding) \<times> world" where
  "VoyageEmbedding_init super_init key model_id w =
     (case super_init of
        Some e \<Rightarrow> (Inl e, w)
      | None \<Rightarrow>
          if model_id \<notin> set voyage_allowed_models then (Inl ValueError, w)
          else (Inr \<lparr>voyage_model = model_id,
                     voyage_headers = [(''Content-Type'', ''application/json''),
                                       (''Authorization'', ''Bearer '' @ key)]\<rparr>, w))"

section \<open>Usage validation as the specification has it\<close>

text \<open>
  Modelled from the spec: UsageData.model_validate is not among the sources. The spec
  gives UsageData as a fixed record of three token counts whose validation fails
  closed: a raw value is accepted only if it is a mapping in which the prompt, the
  completion and the total count are all present and are integers.
\<close>

definition UsageData_strict :: "json \<Rightarrow> error + usage_data" where
  "UsageData_strict raw =
     (case raw of
        JObj m \<Rightarrow>
          (case (fmlookup m ''prompt_tokens'', fmlookup m ''completion_tokens'',
                 fmlookup m ''total_tokens'') of
             (Some (JInt a), Some (JInt b), Some (JInt c)) \<Rightarrow>
               Inr \<lparr>prompt_tokens = a, completion_tokens = b, total_tokens = c\<rparr>
           | _ \<Rightarrow> Inl ValidationError)
      | _ \<Rightarrow> Inl ValidationError)"

section \<open>Reading a run\<close>

text \<open>
  The fragments that a list of lines yields up to the first line that raises, and the
  exception of that line, if there is one.
\<close>

fun fragments :: "env \<Rightarrow> string list \<Rightarrow> string list" where
  "fragments E [] = []"
| "fragments E (line # lines) =
     (case process_line E line of
        Inl e \<Rightarrow> []
      | Inr None \<Rightarrow> fragments E lines
      | Inr (Some delta) \<Rightarrow> delta # fragments E lines)"

fun first_error :: "env \<Rightarrow> string list \<Rightarrow> error option" where
  "first_error E [] = None"
| "first_error E (line # lines) =
     (case process_line E line of
        Inl e \<Rightarrow> Some e
      | Inr x \<Rightarrow> first_error E lines)"

text \<open>
  What a run of the consumer shows: the fragments, the ending and the world, without
  the internal state of the generator.
\<close>

definition observed :: "string list \<times> ending \<times> gen_state \<times> world \<Rightarrow> string list \<times> ending \<times> world" where
  "observed r = (case r of (fs, e, g, w) \<Rightarrow> (fs, e, w))"

text \<open>The assistant message that carries a given text.\<close>

definition assistant :: "string \<Rightarrow> message" where
  "assistant s = \<lparr>role = ''assistant'', name = None, content = Text s, usage = None\<rparr>"

section \<open>Sample inputs\<close>

text \<open>
  Concrete inputs on which the theorems below are instantiated. The decoder is the
  restriction of \<^verbatim>\<open>json.loads\<close> to a handful of texts: it decodes the listed texts as
  \<^verbatim>\<open>json.loads\<close> does and rejects every other text, among them \<^verbatim>\<open>garbage\<close> and
  \<^verbatim>\<open>[DONE]\<close>, which \<^verbatim>\<open>json.loads\<close> rejects too.
\<close>

definition delta_event :: "string \<Rightarrow> json" where
  "delta_event s =
     JObj (fmap_of_list
       [(''choices'', JArr [JObj (fmap_of_list
          [(''delta'', JObj (fmap_of_list [(''content'', JStr s)]))])])])"

definition sample_loads :: "string \<Rightarrow> json option" where
  \<open>sample_loads =
     map_of
       [(''{"choices":[{"delta":{"content":"A"}}]}'', delta_event ''A''),
        (''{"choices":[{"delta":{"content":"B"}}]}'', delta_event ''B''),
        (''{"choices":[{"delta":{}}]}'',
           JObj (fmap_of_list [(''choices'', JArr [JObj (fmap_of_list [(''delta'', JObj fmempty)])])])),
        (''{"choices":[{"delta":{"role":"assistant"}}]}'',
           JObj (fmap_of_list [(''choices'', JArr [JObj (fmap_of_list
             [(''delta'', JObj (fmap_of_list [(''role'', JStr ''assistant'')]))])])])),
        (''{}'', JObj fmempty)]\<close>

definition line_A :: string where
  \<open>line_A = ''data: {"choices":[{"delta":{"content":"A"}}]}''\<close>

definition line_B :: string where
  \<open>line_B = ''data: {"choices":[{"delta":{"content":"B"}}]}''\<close>

definition line_no_choices :: string where
  \<open>line_no_choices = ''data: {}''\<close>

definition line_no_content :: string where
  \<open>line_no_content = ''data: {"choices":[{"delta":{"role":"assistant"}}]}''\<close>

definition sample_env :: "(request list \<Rightarrow> request \<Rightarrow> reply) \<Rightarrow> env" where
  "sample_env post =
     \<lparr>json_loads = sample_loads, requests_post = post, httpx_post = post,
      UsageData_model_validate = UsageData_strict\<rparr>"

definition lines_reply :: "string list \<Rightarrow> reply" where
  "lines_reply ls = Got \<lparr>resp_ok = True, resp_json = None, resp_lines = ls\<rparr>"

definition document_reply :: "json \<Rightarrow> reply" where
  "document_reply j = Got \<lparr>resp_ok = True, resp_json = Some j, resp_lines = []\<rparr>"

definition completion :: "string \<Rightarrow> json" where
  "completion s =
     JObj (fmap_of_list
       [(''choices'', JArr [JObj (fmap_of_list
          [(''message'', JObj (fmap_of_list
             [(''role'', JStr ''assistant''), (''content'', JStr s)]))])]),
        (''usage'', JObj (fmap_of_list
          [(''prompt_tokens'', JInt 3), (''completion_tokens'', JInt 1),
           (''total_tokens'', JInt 4)]))])"

definition sample_model :: GroqVisionModel where
  "sample_model =
     \<lparr>api_key = ''key'', allowed_models = [''llama-3.2-11b-vision-preview''],
      model_name = ''llama-3.2-11b-vision-preview''\<rparr>"

definition sample_params :: params where
  "sample_params =
     \<lparr>temperature = Finite (7 / 10), max_tokens = 256, top_p = Finite 1,
      enable_json = False, stop = None\<rparr>"

definition user_says :: "string \<Rightarrow> message" where
  "user_says s = \<lparr>role = ''user'', name = None, content = Text s, usage = None\<rparr>"

definition sample_world :: world where
  "sample_world = \<lparr>heap = (\<lambda>c. [user_says ''hi'']), sent = []\<rparr>"

text \<open>A client that gives the same answer to every request.\<close>

definition always :: "reply \<Rightarrow> request list \<Rightarrow> request \<Rightarrow> reply" where
  "always r issued req = r"

section \<open>Properties\<close>

subsection \<open>Construction of the embedding adapter\<close>

text \<open>
  Claim C6. A model identifier outside the allow-list makes the constructor of
  VoyageEmbedding fail, with the world (and so the log of requests) unchanged; when
  the base-class constructor accepts its arguments the failure is the \<^verbatim>\<open>ValueError\<close>
  of the allow-list check. With an identifier of the allow-list, and the base-class
  constructor accepting its arguments, construction succeeds, again without a request,
  and the instance carries that identifier.
\<close>

theorem voyage_init_allow_list:
  "(model_id \<notin> set voyage_allowed_models \<longrightarrow>
      (\<exists>e. VoyageEmbedding_init super_init key model_id w = (Inl e, w)) \<and>
      (super_init = None \<longrightarrow> VoyageEmbedding_init super_init key model_id w = (Inl ValueError, w))) \<and>
   (model_id \<in> set voyage_allowed_models \<and> super_init = None \<longrightarrow>
      (\<exists>v. VoyageEmbedding_init super_init key model_id w = (Inr v, w) \<and> voyage_model v = model_id))"
  by (cases super_init) (simp_all add: VoyageEmbedding_init_def)

theorem voyage_init_allow_list_witness:
  "''voyage-3'' \<notin> set voyage_allowed_models \<and>
   VoyageEmbedding_init None ''k'' ''voyage-3'' \<lparr>heap = \<lambda>c. [], sent = []\<rparr>
     = (Inl ValueError, \<lparr>heap = \<lambda>c. [], sent = []\<rparr>) \<and>
   ''voyage-code-2'' \<in> set voyage_allowed_models \<and>
   (\<exists>v. VoyageEmbedding_init None ''k'' ''voyage-code-2'' \<lparr>heap = \<lambda>c. [], sent = []\<rparr>
     = (Inr v, \<lparr>heap = \<lambda>c. [], sent = []\<rparr>) \<and> voyage_model v = ''voyage-code-2'')"
proof -
  have a: "''voyage-3'' \<notin> set voyage_allowed_models"
    by (simp add: voyage_allowed_models_def)
  have b: "''voyage-code-2'' \<in> set voyage_allowed_models"
    by (simp add: voyage_allowed_models_def)
  from a b
    voyage_init_allow_list [of "''voyage-3''" None "''k''" "\<lparr>heap = \<lambda>c. [], sent = []\<rparr>"]
    voyage_init_allow_list [of "''voyage-code-2''" None "''k''" "\<lparr>heap = \<lambda>c. [], sent = []\<rparr>"]
  show ?thesis by blast
qed

subsection \<open>Steps of the generators\<close>

text \<open>
  A step of either generator leaves every history as it is, except the step that ends
  the stream, which appends one assistant message to the conversation of the call.
\<close>

lemma reassemble_cases:
  "reassemble E c ls acc w = (st, g, w') \<Longrightarrow>
     (case st of
        Yielded d \<Rightarrow> w' = w \<and> (\<exists>rest. g = Suspended rest (acc @ d))
      | StopIteration \<Rightarrow> g = Closed \<and> w' = add_message c (assistant acc) w
      | Raised e \<Rightarrow> g = Closed \<and> w' = w)"
  by (induction ls) (auto simp: assistant_def split: sum.splits option.splits)

lemma heap_add_message [simp]:
  "heap (add_message c m w) = (heap w)(c := heap w c @ [m])"
  by (simp add: add_message_def)

lemma sent_add_message [simp]: "sent (add_message c m w) = sent w"
  by (simp add: add_message_def)

lemma stream_next_cases:
  "stream_next E M c p g w = (st, g', w') \<Longrightarrow>
     (case st of
        Yielded d \<Rightarrow> heap w' = heap w \<and> (\<exists>rest acc. g' = Suspended rest acc)
      | StopIteration \<Rightarrow>
          g' = Closed \<and> (heap w' = heap w \<or> (\<exists>s. heap w' = (heap w)(c := heap w c @ [assistant s])))
      | Raised e \<Rightarrow> g' = Closed \<and> heap w' = heap w)"
  unfolding stream_next_def
  by (auto simp: Let_def split: gen_state.splits sum.splits reply.splits if_splits step.splits
      dest!: reassemble_cases)

lemma astream_next_cases:
  "astream_next E M c p g w = (st, g', w') \<Longrightarrow>
     (case st of
        Yielded d \<Rightarrow> heap w' = heap w \<and> (\<exists>rest acc. g' = Suspended rest acc)
      | StopIteration \<Rightarrow>
          g' = Closed \<and> (heap w' = heap w \<or> (\<exists>s. heap w' = (heap w)(c := heap w c @ [assistant s])))
      | Raised e \<Rightarrow> g' = Closed \<and> heap w' = heap w)"
  unfolding astream_next_def
  by (auto simp: Let_def split: gen_state.splits sum.splits reply.splits if_splits step.splits
      dest!: reassemble_cases)

lemma pull_heap:
  assumes nxt: "\<And>g w st g' w'. nxt g w = (st, g', w') \<Longrightarrow>
     (case st of
        Yielded d \<Rightarrow> heap w' = heap w \<and> (\<exists>rest acc. g' = Suspended rest acc)
      | StopIteration \<Rightarrow>
          g' = Closed \<and> (heap w' = heap w \<or> (\<exists>s. heap w' = (heap w)(c := heap w c @ [assistant s])))
      | Raised e \<Rightarrow> g' = Closed \<and> heap w' = heap w)"
  shows "pull nxt n g w = (fs, e, g', w') \<Longrightarrow>
     (case e of
        Open \<Rightarrow> heap w' = heap w
      | Exhausted \<Rightarrow> heap w' = heap w \<or> (\<exists>s. heap w' = (heap w)(c := heap w c @ [assistant s]))
      | Failed x \<Rightarrow> heap w' = heap w)"
proof (induction n arbitrary: g w fs)
  case 0
  then show ?case by simp
next
  case (Suc n)
  obtain st g1 w1 where s: "nxt g w = (st, g1, w1)" by (cases "nxt g w") auto
  note h = nxt [OF s]
  show ?case
  proof (cases st)
    case (Yielded d)
    with h have hw: "heap w1 = heap w" by simp
    obtain fs2 e2 g2 w2 where r: "pull nxt n g1 w1 = (fs2, e2, g2, w2)"
      by (cases "pull nxt n g1 w1") auto
    from Suc.prems s Yielded r have r': "pull nxt n g1 w1 = (fs2, e, g', w')" by auto
    from Suc.IH [OF r'] show ?thesis unfolding hw .
  next
    case StopIteration
    with Suc.prems s h show ?thesis by auto
  next
    case (Raised x)
    with Suc.prems s h show ?thesis by auto
  qed
qed

subsection \<open>The sample lines\<close>

lemma pl_A: "process_line (sample_env post) line_A = Inr (Some ''A'')"
  by (simp add: process_line_def sample_env_def line_A_def sample_loads_def delta_event_def
        chunk_delta_def index_list_def fmlookup_of_list)

lemma pl_B: "process_line (sample_env post) line_B = Inr (Some ''B'')"
  by (simp add: process_line_def sample_env_def line_B_def sample_loads_def delta_event_def
        chunk_delta_def index_list_def fmlookup_of_list)

lemma fm_hi: "format_messages (history c sample_world) = Inr [JObj (model_dump (user_says ''hi''))]"
  by (simp add: history_def sample_world_def format_message_def model_dump_def user_says_def
      fmlookup_of_list)

subsection \<open>Abandoned streams\<close>

text \<open>
  Claim C2. A consumer that has taken \<open>n\<close> elements, each of them a fragment, has not
  seen the stream end. When it then closes the generator, no history differs from
  what it was before the call: nothing is appended to the conversation. This holds for
  \<^verbatim>\<open>stream\<close> and for \<^verbatim>\<open>astream\<close>, also for a generator that was never started.
\<close>

theorem abandoned_stream_appends_nothing:
  "(pull (stream_next E M c p) n Created w = (fs, Open, g, w1) \<longrightarrow>
      heap (snd (close g w1)) = heap w) \<and>
   (pull (astream_next E M c p) n Created w = (fs', Open, g', w2) \<longrightarrow>
      heap (snd (close g' w2)) = heap w)"
  using pull_heap [of "stream_next E M c p" c n Created w fs Open g w1, OF stream_next_cases]
        pull_heap [of "astream_next E M c p" c n Created w fs' Open g' w2, OF astream_next_cases]
  by (simp add: close_def)

lemma stream_sample_AB_1:
  "fst (pull (stream_next (sample_env (\<lambda>log req. lines_reply [line_A, line_B])) sample_model c sample_params)
            1 Created sample_world) = [''A''] \<and>
   fst (snd (pull (stream_next (sample_env (\<lambda>log req. lines_reply [line_A, line_B])) sample_model c sample_params)
            1 Created sample_world)) = Open"
  by (simp add: stream_next_def fm_hi lines_reply_def Let_def pl_A,
      simp add: sample_env_def pl_A [unfolded sample_env_def])

lemma astream_sample_AB_1:
  "fst (pull (astream_next (sample_env (\<lambda>log req. lines_reply [line_A, line_B])) sample_model c sample_params)
            1 Created sample_world) = [''A''] \<and>
   fst (snd (pull (astream_next (sample_env (\<lambda>log req. lines_reply [line_A, line_B])) sample_model c sample_params)
            1 Created sample_world)) = Open"
  by (simp add: astream_next_def fm_hi lines_reply_def Let_def pl_A,
      simp add: sample_env_def pl_A [unfolded sample_env_def])

theorem abandoned_stream_appends_nothing_witness:
  "(case pull (stream_next (sample_env (\<lambda>log req. lines_reply [line_A, line_B])) sample_model 0 sample_params)
           1 Created sample_world of
      (fs, e, g, w1) \<Rightarrow> fs = [''A''] \<and> e = Open \<and> heap (snd (close g w1)) = heap sample_world) \<and>
   (case pull (astream_next (sample_env (\<lambda>log req. lines_reply [line_A, line_B])) sample_model 0 sample_params)
           1 Created sample_world of
      (fs, e, g, w1) \<Rightarrow> fs = [''A''] \<and> e = Open \<and> heap (snd (close g w1)) = heap sample_world)"
proof -
  let ?E = "sample_env (\<lambda>log req. lines_reply [line_A, line_B])"
  obtain fs e g w1 where
    s: "pull (stream_next ?E sample_model 0 sample_params) 1 Created sample_world = (fs, e, g, w1)"
    using prod_cases4 by blast
  obtain fs' e' g' w2 where
    a: "pull (astream_next ?E sample_model 0 sample_params) 1 Created sample_world = (fs', e', g', w2)"
    using prod_cases4 by blast
  from s stream_sample_AB_1 [of 0] have s1: "fs = [''A'']" "e = Open" by simp_all
  from a astream_sample_AB_1 [of 0] have a1: "fs' = [''A'']" "e' = Open" by simp_all
  from abandoned_stream_appends_nothing [of ?E sample_model 0 sample_params 1 sample_world fs g w1 fs' g' w2]
    s a s1 a1
  show ?thesis by simp
qed

subsection \<open>The unary calls\<close>

lemma apredict_eq_predict: "apredict E M c p w = predict E M c p w"
  by (simp add: apredict_def predict_def)

lemma make_request_heap: "make_request E M d w = (r, w') \<Longrightarrow> heap w' = heap w"
  by (auto simp: make_request_def Let_def split: reply.splits if_splits option.splits)

lemma finish_predict_cases:
  "finish_predict E c result w = (r, w') \<Longrightarrow>
     (case r of
        Inl e \<Rightarrow> w' = w
      | Inr c' \<Rightarrow> c' = c \<and> (\<exists>m. w' = add_message c m w))"
  by (auto simp: finish_predict_def split: sum.splits)

lemma predict_cases:
  "predict E M c p w = (r, w') \<Longrightarrow>
     (case r of
        Inl e \<Rightarrow> heap w' = heap w
      | Inr c' \<Rightarrow> c' = c \<and> (\<exists>m. heap w' = (heap w)(c := heap w c @ [m])))"
  unfolding predict_def
  apply (auto split: sum.splits prod.splits dest!: finish_predict_cases make_request_heap)
  apply (rule exI, rule refl)
  done

text \<open>
  Claim C4. Whenever \<^verbatim>\<open>predict\<close> or \<^verbatim>\<open>apredict\<close> ends with an exception, every
  history is what it was before the call. And they do end with an exception when the
  request cannot be made, when \<^verbatim>\<open>raise_for_status\<close> rejects the response, and when
  the response document has no \<^verbatim>\<open>choices[0].message.content\<close>.
\<close>

theorem predict_error_leaves_conversation:
  "(predict E M c p w = (Inl e, w') \<longrightarrow> heap w' = heap w) \<and>
   (apredict E M c p w = (Inl e, w') \<longrightarrow> heap w' = heap w) \<and>
   (format_messages (history c w) = Inr fm \<and>
    requests_post E (sent w) (api_request M (request_data M p fm False) False) = rep \<and>
    (rep = ConnectionFailed \<or>
     (\<exists>resp. rep = Got resp \<and>
        (\<not> resp_ok resp \<or> (\<exists>doc x. resp_json resp = Some doc \<and> completion_content doc = Inl x))))
    \<longrightarrow>
      (\<exists>x w1. predict E M c p w = (Inl x, w1) \<and> heap w1 = heap w) \<and>
      (\<exists>x w1. apredict E M c p w = (Inl x, w1) \<and> heap w1 = heap w))"
proof (intro conjI impI)
  show "heap w' = heap w" if "predict E M c p w = (Inl e, w')"
    using predict_cases [OF that] by simp
  show "heap w' = heap w" if "apredict E M c p w = (Inl e, w')"
    using predict_cases [of E M c p w "Inl e" w'] that by (simp add: apredict_eq_predict)
next
  assume h: "format_messages (history c w) = Inr fm \<and>
    requests_post E (sent w) (api_request M (request_data M p fm False) False) = rep \<and>
    (rep = ConnectionFailed \<or>
     (\<exists>resp. rep = Got resp \<and>
        (\<not> resp_ok resp \<or> (\<exists>doc x. resp_json resp = Some doc \<and> completion_content doc = Inl x))))"
  then have "\<exists>x w1. predict E M c p w = (Inl x, w1)"
    by (auto simp: predict_def make_request_def Let_def finish_predict_def)
  then obtain x w1 where pr: "predict E M c p w = (Inl x, w1)" by blast
  from predict_cases [OF pr] have "heap w1 = heap w" by simp
  with pr show "\<exists>x w1. predict E M c p w = (Inl x, w1) \<and> heap w1 = heap w" by blast
  with pr show "\<exists>x w1. apredict E M c p w = (Inl x, w1) \<and> heap w1 = heap w"
    by (simp add: apredict_eq_predict)
qed



lemma predict_sample_failures:
  "fst (predict (sample_env (\<lambda>log req. ConnectionFailed)) sample_model c sample_params sample_world)
     = Inl RequestException \<and>
   fst (predict (sample_env (\<lambda>log req. document_reply (JObj fmempty))) sample_model c sample_params
          sample_world) = Inl KeyError"
  by (simp add: predict_def fm_hi make_request_def Let_def sample_env_def document_reply_def
      finish_predict_def completion_content_def)


theorem predict_error_leaves_conversation_witness:
  "(\<exists>w1. predict (sample_env (\<lambda>log req. ConnectionFailed)) sample_model 0 sample_params sample_world
           = (Inl RequestException, w1) \<and> heap w1 = heap sample_world) \<and>
   (\<exists>w1. predict (sample_env (\<lambda>log req. document_reply (JObj fmempty))) sample_model 0 sample_params
           sample_world = (Inl KeyError, w1) \<and> heap w1 = heap sample_world)"
proof -
  let ?fm = "[JObj (model_dump (user_says ''hi''))]"
  let ?E1 = "sample_env (\<lambda>log req. ConnectionFailed)"
  let ?E2 = "sample_env (\<lambda>log req. document_reply (JObj fmempty))"
  let ?rep = "Got \<lparr>resp_ok = True, resp_json = Some (JObj fmempty), resp_lines = []\<rparr>"
  have f: "format_messages (history 0 sample_world) = Inr ?fm" by (rule fm_hi)
  have r1: "requests_post ?E1 (sent sample_world)
              (api_request sample_model (request_data sample_model sample_params ?fm False) False)
            = ConnectionFailed"
    by (simp add: sample_env_def)
  have r2: "requests_post ?E2 (sent sample_world)
              (api_request sample_model (request_data sample_model sample_params ?fm False) False)
            = ?rep"
    by (simp add: sample_env_def document_reply_def)
  have d: "completion_content (JObj fmempty) = Inl KeyError"
    by (simp add: completion_content_def)
  have h1: "format_messages (history 0 sample_world) = Inr ?fm \<and>
    requests_post ?E1 (sent sample_world)
      (api_request sample_model (request_data sample_model sample_params ?fm False) False)
      = ConnectionFailed \<and>
    (ConnectionFailed = ConnectionFailed \<or>
     (\<exists>resp. ConnectionFailed = Got resp \<and>
        (\<not> resp_ok resp \<or> (\<exists>doc x. resp_json resp = Some doc \<and> completion_content doc = Inl x))))"
    using f r1 by simp
  have h2: "format_messages (history 0 sample_world) = Inr ?fm \<and>
    requests_post ?E2 (sent sample_world)
      (api_request sample_model (request_data sample_model sample_params ?fm False) False)
      = ?rep \<and>
    (?rep = ConnectionFailed \<or>
     (\<exists>resp. ?rep = Got resp \<and>
        (\<not> resp_ok resp \<or> (\<exists>doc x. resp_json resp = Some doc \<and> completion_content doc = Inl x))))"
    using f r2 d by simp
  from predict_error_leaves_conversation
         [of ?E1 sample_model 0 sample_params sample_world _ _ ?fm ConnectionFailed,
          THEN conjunct2, THEN conjunct2, THEN mp, OF h1, THEN conjunct1]
  obtain x1 w1 where
    p1: "predict ?E1 sample_model 0 sample_params sample_world = (Inl x1, w1)"
        "heap w1 = heap sample_world"
    by (elim exE conjE)
  from predict_error_leaves_conversation
         [of ?E2 sample_model 0 sample_params sample_world _ _ ?fm ?rep,
          THEN conjunct2, THEN conjunct2, THEN mp, OF h2, THEN conjunct1]
  obtain x2 w2 where
    p2: "predict ?E2 sample_model 0 sample_params sample_world = (Inl x2, w2)"
        "heap w2 = heap sample_world"
    by (elim exE conjE)
  from p1(1) predict_sample_failures [of 0] have x1: "x1 = RequestException" by simp
  from p2(1) predict_sample_failures [of 0] have x2: "x2 = KeyError" by simp
  from p1 p2 x1 x2 show ?thesis by blast
qed

subsection \<open>Runs of the consumer\<close>

text \<open>
  What a consumer sees that asks \<open>n\<close> times from a generator suspended over the
  lines \<open>ls\<close> with the text \<open>acc\<close> accumulated: the first \<open>n\<close> fragments of the lines
  with nothing appended, as long as there are that many; otherwise all the fragments,
  and then either the exception of the first line that raises, with nothing appended,
  or the end of the stream, with the accumulated text appended as one message.
\<close>

lemma pull_Suc_cong: "nxt g w = nxt g' w' \<Longrightarrow> pull nxt (Suc n) g w = pull nxt (Suc n) g' w'"
  by simp

lemma pull_suspended_view:
  assumes nxt: "\<And>ls acc w. nxt (Suspended ls acc) w = reassemble E c ls acc w"
  shows "observed (pull nxt n (Suspended ls acc) w) =
     (if n \<le> length (fragments E ls) then (take n (fragments E ls), Open, w)
      else (fragments E ls,
            (case first_error E ls of None \<Rightarrow> Exhausted | Some e \<Rightarrow> Failed e),
            (case first_error E ls of
               None \<Rightarrow> add_message c (assistant (acc @ concat (fragments E ls))) w
             | Some e \<Rightarrow> w)))"
proof (induction ls arbitrary: n acc)
  case Nil
  show ?case
    by (cases n) (simp_all add: observed_def nxt assistant_def)
next
  case (Cons l ls)
  show ?case
  proof (cases n)
    case 0
    then show ?thesis by (simp add: observed_def)
  next
    case (Suc k)
    show ?thesis
    proof (cases "process_line E l")
      case (Inl e)
      with Suc show ?thesis by (simp add: observed_def nxt)
    next
      case (Inr r)
      show ?thesis
      proof (cases r)
        case None
        with Inr have F: "fragments E (l # ls) = fragments E ls"
          "first_error E (l # ls) = first_error E ls"
          by simp_all
        from Inr None have "nxt (Suspended (l # ls) acc) w = nxt (Suspended ls acc) w"
          by (simp add: nxt)
        then have P: "pull nxt (Suc k) (Suspended (l # ls) acc) w
            = pull nxt (Suc k) (Suspended ls acc) w"
          by (rule pull_Suc_cong)
        show ?thesis unfolding Suc P F by (rule Cons.IH)
      next
        case (Some d)
        with Inr have F: "fragments E (l # ls) = d # fragments E ls"
          "first_error E (l # ls) = first_error E ls"
          by simp_all
        from Inr Some have s: "nxt (Suspended (l # ls) acc) w = (Yielded d, Suspended ls (acc @ d), w)"
          by (simp add: nxt)
        obtain fs e g w' where r: "pull nxt k (Suspended ls (acc @ d)) w = (fs, e, g, w')"
          using prod_cases4 by blast
        from s r have o: "observed (pull nxt (Suc k) (Suspended (l # ls) acc) w) = (d # fs, e, w')"
          by (simp add: observed_def)
        from Cons.IH [of k "acc @ d"] r
        have v: "(fs, e, w') =
          (if k \<le> length (fragments E ls) then (take k (fragments E ls), Open, w)
           else (fragments E ls,
            (case first_error E ls of None \<Rightarrow> Exhausted | Some e \<Rightarrow> Failed e),
            (case first_error E ls of
               None \<Rightarrow> add_message c (assistant ((acc @ d) @ concat (fragments E ls))) w
             | Some e \<Rightarrow> w)))"
          by (simp add: observed_def)
        show ?thesis
        proof (cases "k \<le> length (fragments E ls)")
          case True
          with v show ?thesis unfolding Suc o F by simp
        next
          case False
          with v show ?thesis unfolding Suc o F
            by (cases "first_error E ls") simp_all
        qed
      qed
    qed
  qed
qed

subsection \<open>Runs from the start\<close>

text \<open>
  After a successful request a generator that has just been started behaves as one
  suspended over all the lines of the response with nothing accumulated.
\<close>

lemma stream_next_Suspended:
  "stream_next E M c p (Suspended ls acc) w = reassemble E c ls acc w"
  by (simp add: stream_next_def)

lemma astream_next_Suspended:
  "astream_next E M c p (Suspended ls acc) w = reassemble E c ls acc w"
  by (simp add: astream_next_def)

lemma stream_created_run:
  assumes "format_messages (history c w) = Inr fm"
    and "requests_post E (sent w) (api_request M (request_data M p fm True) True) = Got resp"
    and "resp_ok resp"
  shows "pull (stream_next E M c p) (Suc k) Created w =
         pull (stream_next E M c p) (Suc k) (Suspended (resp_lines resp) [])
           (w\<lparr>sent := sent w @ [api_request M (request_data M p fm True) True]\<rparr>)"
  by (rule pull_Suc_cong) (simp add: stream_next_def assms Let_def)

lemma astream_created_run:
  assumes "format_messages (history c w) = Inr fm"
    and "httpx_post E (sent w) (api_request M (request_data M p fm True) False) = Got resp"
    and "resp_ok resp"
  shows "pull (astream_next E M c p) (Suc k) Created w =
         pull (astream_next E M c p) (Suc k) (Suspended (resp_lines resp) [])
           (w\<lparr>sent := sent w @ [api_request M (request_data M p fm True) False]\<rparr>)"
  by (rule pull_Suc_cong) (simp add: astream_next_def assms Let_def)

lemma suspended_exhausted:
  assumes nxt: "\<And>ls acc w. nxt (Suspended ls acc) w = reassemble E c ls acc w"
    and r: "pull nxt n (Suspended ls acc) w = (fs, Exhausted, g, w')"
  shows "fs = fragments E ls \<and> w' = add_message c (assistant (acc @ concat fs)) w"
proof -
  from pull_suspended_view [of nxt E c n ls acc w, OF nxt] r
  have v: "(fs, Exhausted, w') =
     (if n \<le> length (fragments E ls) then (take n (fragments E ls), Open, w)
      else (fragments E ls,
            (case first_error E ls of None \<Rightarrow> Exhausted | Some e \<Rightarrow> Failed e),
            (case first_error E ls of
               None \<Rightarrow> add_message c (assistant (acc @ concat (fragments E ls))) w
             | Some e \<Rightarrow> w)))"
    by (simp add: observed_def)
  show ?thesis
  proof (cases "n \<le> length (fragments E ls)")
    case True
    with v show ?thesis by simp
  next
    case False
    with v show ?thesis by (cases "first_error E ls") simp_all
  qed
qed

lemma stream_exhausted:
  assumes r: "pull (stream_next E M c p) n Created w = (fs, Exhausted, g, w')"
  shows "heap w' = (heap w)(c := heap w c @ [assistant (concat fs)])"
proof (cases n)
  case 0
  with r show ?thesis by simp
next
  case (Suc k)
  show ?thesis
  proof (cases "format_messages (history c w)")
    case (Inl e)
    with r Suc show ?thesis by (simp add: stream_next_def)
  next
    case (Inr fm)
    let ?req = "api_request M (request_data M p fm True) True"
    show ?thesis
    proof (cases "requests_post E (sent w) ?req")
      case ConnectionFailed
      with r Suc Inr show ?thesis by (simp add: stream_next_def Let_def)
    next
      case (Got resp)
      show ?thesis
      proof (cases "resp_ok resp")
        case False
        with r Suc Inr Got show ?thesis by (simp add: stream_next_def Let_def)
      next
        case True
        from r stream_created_run [OF Inr Got True, of k] Suc
        have "pull (stream_next E M c p) n (Suspended (resp_lines resp) [])
                (w\<lparr>sent := sent w @ [?req]\<rparr>) = (fs, Exhausted, g, w')"
          by simp
        from suspended_exhausted [OF stream_next_Suspended this]
        show ?thesis by simp
      qed
    qed
  qed
qed

lemma astream_exhausted:
  assumes r: "pull (astream_next E M c p) n Created w = (fs, Exhausted, g, w')"
  shows "heap w' = (heap w)(c := heap w c @ [assistant (concat fs)])"
proof (cases n)
  case 0
  with r show ?thesis by simp
next
  case (Suc k)
  show ?thesis
  proof (cases "format_messages (history c w)")
    case (Inl e)
    with r Suc show ?thesis by (simp add: astream_next_def)
  next
    case (Inr fm)
    let ?req = "api_request M (request_data M p fm True) False"
    show ?thesis
    proof (cases "httpx_post E (sent w) ?req")
      case ConnectionFailed
      with r Suc Inr show ?thesis by (simp add: astream_next_def Let_def)
    next
      case (Got resp)
      show ?thesis
      proof (cases "resp_ok resp")
        case False
        with r Suc Inr Got show ?thesis by (simp add: astream_next_def Let_def)
      next
        case True
        from r astream_created_run [OF Inr Got True, of k] Suc
        have "pull (astream_next E M c p) n (Suspended (resp_lines resp) [])
                (w\<lparr>sent := sent w @ [?req]\<rparr>) = (fs, Exhausted, g, w')"
          by simp
        from suspended_exhausted [OF astream_next_Suspended this]
        show ?thesis by simp
      qed
    qed
  qed
qed

lemma suspended_drained:
  assumes nxt: "\<And>ls acc w. nxt (Suspended ls acc) w = reassemble E c ls acc w"
    and "first_error E ls = None" and "length (fragments E ls) < n"
  shows "observed (pull nxt n (Suspended ls acc) w) =
         (fragments E ls, Exhausted, add_message c (assistant (acc @ concat (fragments E ls))) w)"
  using pull_suspended_view [of nxt E c n ls acc w, OF nxt] assms(2,3) by simp

lemma suspended_failed:
  assumes nxt: "\<And>ls acc w. nxt (Suspended ls acc) w = reassemble E c ls acc w"
    and "first_error E ls = Some e" and "length (fragments E ls) < n"
  shows "observed (pull nxt n (Suspended ls acc) w) = (fragments E ls, Failed e, w)"
  using pull_suspended_view [of nxt E c n ls acc w, OF nxt] assms(2,3) by simp

subsection \<open>More sample lines\<close>

lemma pl_garbage: "process_line (sample_env post) ''garbage'' = Inr None"
  by (simp add: process_line_def sample_env_def sample_loads_def)

lemma pl_no_choices: "process_line (sample_env post) line_no_choices = Inl KeyError"
  by (simp add: process_line_def sample_env_def line_no_choices_def sample_loads_def
        chunk_delta_def)

lemma pl_no_content: "process_line (sample_env post) line_no_content = Inl KeyError"
  by (simp add: process_line_def sample_env_def line_no_content_def sample_loads_def
        chunk_delta_def index_list_def fmlookup_of_list)

lemma sample_post [simp]:
  "requests_post (sample_env post) = post" "httpx_post (sample_env post) = post"
  by (simp_all add: sample_env_def)

lemma lines_reply_simps [simp]:
  "always (lines_reply ls) issued req = Got \<lparr>resp_ok = True, resp_json = None, resp_lines = ls\<rparr>"
  by (simp add: always_def lines_reply_def)

subsection \<open>The message appended at the end of a stream\<close>

text \<open>
  Claim C1, as amended. Whenever a consumer of \<^verbatim>\<open>stream\<close> or \<^verbatim>\<open>astream\<close> reaches the
  end of the stream, exactly one assistant message has been appended to the
  conversation, and its content is the concatenation, in order, of the fragments the
  consumer received (the empty text when there were none). The end is reached when
  the request succeeds, no line decodes to a value that lacks the structure of an
  event, and the consumer asks once more than there are fragments.
\<close>

theorem stream_commits_concatenation:
  "(pull (stream_next E M c p) n Created w = (fs, Exhausted, g, w') \<longrightarrow>
      heap w' = (heap w)(c := heap w c @ [assistant (concat fs)])) \<and>
   (pull (astream_next E M c p) n Created w = (fs, Exhausted, g, w') \<longrightarrow>
      heap w' = (heap w)(c := heap w c @ [assistant (concat fs)])) \<and>
   (format_messages (history c w) = Inr fm \<and>
    requests_post E (sent w) (api_request M (request_data M p fm True) True) = Got resp \<and>
    resp_ok resp \<and> first_error E (resp_lines resp) = None \<and>
    length (fragments E (resp_lines resp)) < n \<longrightarrow>
      observed (pull (stream_next E M c p) n Created w) =
        (fragments E (resp_lines resp), Exhausted,
         add_message c (assistant (concat (fragments E (resp_lines resp))))
           (w\<lparr>sent := sent w @ [api_request M (request_data M p fm True) True]\<rparr>))) \<and>
   (format_messages (history c w) = Inr fm \<and>
    httpx_post E (sent w) (api_request M (request_data M p fm True) False) = Got resp \<and>
    resp_ok resp \<and> first_error E (resp_lines resp) = None \<and>
    length (fragments E (resp_lines resp)) < n \<longrightarrow>
      observed (pull (astream_next E M c p) n Created w) =
        (fragments E (resp_lines resp), Exhausted,
         add_message c (assistant (concat (fragments E (resp_lines resp))))
           (w\<lparr>sent := sent w @ [api_request M (request_data M p fm True) False]\<rparr>)))"
proof (intro conjI impI)
  show "heap w' = (heap w)(c := heap w c @ [assistant (concat fs)])"
    if "pull (stream_next E M c p) n Created w = (fs, Exhausted, g, w')"
    using that by (rule stream_exhausted)
  show "heap w' = (heap w)(c := heap w c @ [assistant (concat fs)])"
    if "pull (astream_next E M c p) n Created w = (fs, Exhausted, g, w')"
    using that by (rule astream_exhausted)
next
  assume h: "format_messages (history c w) = Inr fm \<and>
    requests_post E (sent w) (api_request M (request_data M p fm True) True) = Got resp \<and>
    resp_ok resp \<and> first_error E (resp_lines resp) = None \<and>
    length (fragments E (resp_lines resp)) < n"
  then obtain k where n: "n = Suc k" by (cases n) auto
  from h have a: "format_messages (history c w) = Inr fm"
    "requests_post E (sent w) (api_request M (request_data M p fm True) True) = Got resp"
    "resp_ok resp" "first_error E (resp_lines resp) = None"
    "length (fragments E (resp_lines resp)) < n"
    by simp_all
  show "observed (pull (stream_next E M c p) n Created w) =
        (fragments E (resp_lines resp), Exhausted,
         add_message c (assistant (concat (fragments E (resp_lines resp))))
           (w\<lparr>sent := sent w @ [api_request M (request_data M p fm True) True]\<rparr>))"
    unfolding n stream_created_run [OF a(1,2,3)]
    using suspended_drained [of "stream_next E M c p" E c "resp_lines resp" n "[]",
            OF stream_next_Suspended a(4,5)]
    by (simp add: n)
next
  assume h: "format_messages (history c w) = Inr fm \<and>
    httpx_post E (sent w) (api_request M (request_data M p fm True) False) = Got resp \<and>
    resp_ok resp \<and> first_error E (resp_lines resp) = None \<and>
    length (fragments E (resp_lines resp)) < n"
  then obtain k where n: "n = Suc k" by (cases n) auto
  from h have a: "format_messages (history c w) = Inr fm"
    "httpx_post E (sent w) (api_request M (request_data M p fm True) False) = Got resp"
    "resp_ok resp" "first_error E (resp_lines resp) = None"
    "length (fragments E (resp_lines resp)) < n"
    by simp_all
  show "observed (pull (astream_next E M c p) n Created w) =
        (fragments E (resp_lines resp), Exhausted,
         add_message c (assistant (concat (fragments E (resp_lines resp))))
           (w\<lparr>sent := sent w @ [api_request M (request_data M p fm True) False]\<rparr>))"
    unfolding n astream_created_run [OF a(1,2,3)]
    using suspended_drained [of "astream_next E M c p" E c "resp_lines resp" n "[]",
            OF astream_next_Suspended a(4,5)]
    by (simp add: n)
qed

theorem stream_commits_concatenation_witness:
  "observed (pull (stream_next (sample_env (always (lines_reply [line_A, line_B]))) sample_model 0
               sample_params) 3 Created sample_world) =
     ([''A'', ''B''], Exhausted,
      add_message 0 (assistant ''AB'')
        (sample_world\<lparr>sent := [api_request sample_model
           (request_data sample_model sample_params [JObj (model_dump (user_says ''hi''))] True)
           True]\<rparr>)) \<and>
   observed (pull (astream_next (sample_env (always (lines_reply []))) sample_model 0
               sample_params) 1 Created sample_world) =
     ([], Exhausted,
      add_message 0 (assistant [])
        (sample_world\<lparr>sent := [api_request sample_model
           (request_data sample_model sample_params [JObj (model_dump (user_says ''hi''))] True)
           False]\<rparr>))"
proof -
  let ?fm = "[JObj (model_dump (user_says ''hi''))]"
  let ?E1 = "sample_env (always (lines_reply [line_A, line_B]))"
  let ?E2 = "sample_env (always (lines_reply []))"
  let ?r1 = "\<lparr>resp_ok = True, resp_json = None, resp_lines = [line_A, line_B]\<rparr>"
  let ?r2 = "\<lparr>resp_ok = True, resp_json = None, resp_lines = []\<rparr>"
  have F1: "fragments ?E1 [line_A, line_B] = [''A'', ''B'']" "first_error ?E1 [line_A, line_B] = None"
    by (simp_all add: pl_A pl_B)
  have h1: "format_messages (history 0 sample_world) = Inr ?fm \<and>
    requests_post ?E1 (sent sample_world)
      (api_request sample_model (request_data sample_model sample_params ?fm True) True) = Got ?r1 \<and>
    resp_ok ?r1 \<and> first_error ?E1 (resp_lines ?r1) = None \<and>
    length (fragments ?E1 (resp_lines ?r1)) < 3"
    using F1 by (simp add: fm_hi)
  have h2: "format_messages (history 0 sample_world) = Inr ?fm \<and>
    httpx_post ?E2 (sent sample_world)
      (api_request sample_model (request_data sample_model sample_params ?fm True) False) = Got ?r2 \<and>
    resp_ok ?r2 \<and> first_error ?E2 (resp_lines ?r2) = None \<and>
    length (fragments ?E2 (resp_lines ?r2)) < 1"
    by (simp add: fm_hi)
  note t1 = stream_commits_concatenation
      [of ?E1 sample_model 0 sample_params 3 sample_world _ _ _ ?fm ?r1,
       THEN conjunct2, THEN conjunct2, THEN conjunct1, THEN mp, OF h1]
  note t2 = stream_commits_concatenation
      [of ?E2 sample_model 0 sample_params 1 sample_world _ _ _ ?fm ?r2,
       THEN conjunct2, THEN conjunct2, THEN conjunct2, THEN mp, OF h2]
  from t1 t2 F1 show ?thesis by (simp add: sample_world_def)
qed

text \<open>
  The claim as stated, for every sequence of lines, fails: over the single line
  \<^verbatim>\<open>data: {}\<close> the generator raises \<^verbatim>\<open>KeyError\<close> and the history is left as it was.
\<close>

theorem stream_without_choices_counterexample:
  "fst (snd (pull (stream_next (sample_env (always (lines_reply [line_no_choices]))) sample_model 0
                     sample_params) 2 Created sample_world)) = Failed KeyError \<and>
   heap (snd (snd (snd (pull (stream_next (sample_env (always (lines_reply [line_no_choices])))
                     sample_model 0 sample_params) 2 Created sample_world)))) 0
     = [user_says ''hi'']"
proof -
  have "pull (stream_next (sample_env (always (lines_reply [line_no_choices]))) sample_model 0
          sample_params) 2 Created sample_world =
        ([], Failed KeyError, Closed,
         sample_world\<lparr>sent := sent sample_world @ [api_request sample_model
           (request_data sample_model sample_params [JObj (model_dump (user_says ''hi''))] True)
           True]\<rparr>)"
    by (simp add: numeral_2_eq_2 stream_next_def fm_hi Let_def pl_no_choices)
  then show ?thesis by (simp add: sample_world_def)
qed

subsection \<open>Lines that are passed over and lines that raise\<close>

lemma process_line_loads:
  "json_loads E' = json_loads E \<Longrightarrow> process_line E' l = process_line E l"
  by (simp add: process_line_def Let_def)

lemma fragments_loads:
  "json_loads E' = json_loads E \<Longrightarrow> fragments E' ls = fragments E ls"
  by (induction ls) (simp_all add: process_line_loads [of E' E] split: sum.splits option.splits)

lemma first_error_loads:
  "json_loads E' = json_loads E \<Longrightarrow> first_error E' ls = first_error E ls"
  by (induction ls) (simp_all add: process_line_loads [of E' E] split: sum.splits option.splits)

lemma fragments_skip:
  "process_line E g = Inr None \<Longrightarrow> fragments E (pre @ g # post) = fragments E (pre @ post)"
  by (induction pre) (simp_all split: sum.splits option.splits)

lemma first_error_skip:
  "process_line E g = Inr None \<Longrightarrow> first_error E (pre @ g # post) = first_error E (pre @ post)"
  by (induction pre) (simp_all split: sum.splits option.splits)

lemma fragments_until_error:
  "first_error E pre = None \<Longrightarrow> process_line E l = Inl e \<Longrightarrow>
     fragments E (pre @ l # post) = fragments E pre"
  by (induction pre) (simp_all split: sum.splits option.splits)

lemma first_error_at:
  "first_error E pre = None \<Longrightarrow> process_line E l = Inl e \<Longrightarrow>
     first_error E (pre @ l # post) = Some e"
  by (induction pre) (simp_all split: sum.splits option.splits)

lemma process_line_undecodable:
  "json_loads E (str_replace ''data: '' [] g) = None \<Longrightarrow> process_line E g = Inr None"
  by (simp add: process_line_def Let_def)

lemma process_line_structure:
  "str_replace ''data: '' [] l \<noteq> [] \<Longrightarrow> json_loads E (str_replace ''data: '' [] l) = Some chunk \<Longrightarrow>
   chunk_delta chunk = Inl e \<or> (\<exists>d. chunk_delta chunk = Inr d \<and> truthy d \<and> getitem_str d ''content'' = Inl e)
   \<Longrightarrow> process_line E l = Inl e"
  by (auto simp: process_line_def Let_def)

end
